theory Spec2Isabelle
  imports
    Complex_Main
    "HOL-Library.Char_ord"
    "HOL-Library.List_Lexorder"
    "HOL-Library.Product_Lexorder"
begin

section \<open>Python values shared by the modules\<close>

text \<open>
  The embedding covers the function bodies of \<^verbatim>\<open>app/utils\<close>. Every collaborator that
  a function reaches through the network (DNS, SMTP, HTTP, WHOIS) is a field of an
  environment record that says what the call returns or raises. Strings are byte
  strings; an exception is a value of \<open>exn\<close>, and a function that can raise returns
  \<open>exn + 'a\<close> with \<open>Inl\<close> for the exception.
\<close>

datatype exn_class =
    ValidationError | SMTPVerificationError | RequestException | SocketTimeout
  | SMTPException | KeyError | NameError | TypeError | IndexError | ValueError
  | OSError | OtherException

datatype exn = Exn exn_class string

text \<open>\<^verbatim>\<open>str(e)\<close>: the message, except for a KeyError, which prints the repr of its key.\<close>

fun str_exn :: "exn \<Rightarrow> string" where
  "str_exn (Exn c m) = (if c = KeyError then [CHR 0x27] @ m @ [CHR 0x27] else m)"

fun exn_is :: "exn_class \<Rightarrow> exn \<Rightarrow> bool" where
  "exn_is c (Exn c' m) = (c' = c)"

text \<open>\<^verbatim>\<open>s.split(sep)\<close> for a one-character separator.\<close>

fun split_str :: "char \<Rightarrow> string \<Rightarrow> string list" where
  "split_str sep [] = [[]]"
| "split_str sep (x # xs) =
     (if x = sep then [] # split_str sep xs
      else (case split_str sep xs of
              [] \<Rightarrow> [[x]]
            | p # ps \<Rightarrow> (x # p) # ps))"

text \<open>
  \<^verbatim>\<open>s.lower()\<close> on ASCII text: the letters \<open>A\<close> to \<open>Z\<close> are mapped, every other byte is
  kept. Python's \<^verbatim>\<open>str.lower\<close> also maps letters outside ASCII (U+212A KELVIN SIGN to
  \<open>k\<close>); a function that may see such text takes the lowercasing as a parameter
  instead. \<open>lower_with_kelvin\<close> is a lowercasing that knows the UTF-8 bytes of U+212A.
\<close>

definition lower_char :: "char \<Rightarrow> char" where
  "lower_char c =
     (if CHR ''A'' \<le> c \<and> c \<le> CHR ''Z'' then char_of (of_char c + (32::nat)) else c)"

definition lower :: "string \<Rightarrow> string" where
  "lower s = map lower_char s"

fun lower_with_kelvin :: "string \<Rightarrow> string" where
  "lower_with_kelvin (a # b # c # s) =
     (if a = CHR 0xE2 \<and> b = CHR 0x84 \<and> c = CHR 0xAA then CHR ''k'' # lower_with_kelvin s
      else lower_char a # lower_with_kelvin (b # c # s))"
| "lower_with_kelvin s = map lower_char s"


section \<open>disposable\_email\_detector.py\<close>

definition DISPOSABLE_EMAIL_API_URL :: string where
  "DISPOSABLE_EMAIL_API_URL = ''https://api.disposable-email-detector.com/check''"

text \<open>
  What \<^verbatim>\<open>requests.get\<close> hands back: the status code and what \<^verbatim>\<open>response.json()\<close>
  gives, a dictionary read only at the key \<^verbatim>\<open>is_disposable\<close>.
\<close>

record http_response =
  status_code :: int
  json_body :: "exn + (string \<rightharpoonup> bool)"

definition is_disposable_email :: "(string \<Rightarrow> exn + http_response) \<Rightarrow> string \<Rightarrow> exn + bool" where
  "is_disposable_email requests_get email =
     (let domain = last (split_str CHR ''@'' email) in
      case requests_get (DISPOSABLE_EMAIL_API_URL @ ''?domain='' @ domain) of
        Inl e \<Rightarrow> (if exn_is RequestException e then Inr False else Inl e)
      | Inr response \<Rightarrow>
          if status_code response = 200 then
            (case json_body response of
               Inl e \<Rightarrow> (if exn_is RequestException e then Inr False else Inl e)
             | Inr data \<Rightarrow>
                 Inr (case data ''is_disposable'' of None \<Rightarrow> False | Some v \<Rightarrow> v))
          else Inr False)"


section \<open>catch\_all\_detector.py\<close>

text \<open>
  Modelled from the spec: \<^verbatim>\<open>_calculate_confidence\<close> is imported from
  \<^verbatim>\<open>catch_all_detector.py\<close> by the tests, but that module does not define it.
  The spec gives: all-identical responses, confidence 1.0; mixed responses, the dominant
  response's share; no responses, 0.0. A response is represented by its \<^verbatim>\<open>code\<close>.
\<close>

definition dominant_count :: "int list \<Rightarrow> nat" where
  "dominant_count codes = fold max (map (count_list codes) codes) 0"

definition calculate_confidence :: "int list \<Rightarrow> real" where
  "calculate_confidence codes =
     (if codes = [] then 0
      else real (dominant_count codes) / real (length codes))"


section \<open>typo\_detector.py\<close>

subsection \<open>The part of difflib that \<^verbatim>\<open>get_close_matches\<close> runs\<close>

text \<open>
  \<^verbatim>\<open>SequenceMatcher\<close> with \<^verbatim>\<open>isjunk=None\<close> on sequences shorter than 200 elements has
  no junk and no popular elements. \<^verbatim>\<open>find_longest_match\<close> then returns, by its contract,
  the longest block \<^verbatim>\<open>a[i:i+k] == b[j:j+k]\<close>, of those the one that starts earliest in
  \<^verbatim>\<open>a\<close>, and of those the one that starts earliest in \<^verbatim>\<open>b\<close>; \<open>k = 0\<close> when no
  element matches.
\<close>

fun common_prefix_len :: "'a list \<Rightarrow> 'a list \<Rightarrow> nat" where
  "common_prefix_len (x # xs) (y # ys) = (if x = y then Suc (common_prefix_len xs ys) else 0)"
| "common_prefix_len _ _ = 0"

definition find_longest_match :: "'a list \<Rightarrow> 'a list \<Rightarrow> nat \<times> nat \<times> nat" where
  "find_longest_match a b =
     fold (\<lambda>i best.
        fold (\<lambda>j (besti, bestj, bestsize).
                let k = common_prefix_len (drop i a) (drop j b)
                in if k > bestsize then (i, j, k) else (besti, bestj, bestsize))
             [0 ..< length b] best)
       [0 ..< length a] (0, 0, 0)"

text \<open>
  \<^verbatim>\<open>get_matching_blocks\<close> takes the longest match and recurses on the pieces to its left
  and to its right; \<^verbatim>\<open>ratio\<close> needs only the total size of the blocks. The recursion
  ends because a match lies inside both sequences.
\<close>

function matching_total :: "'a list \<Rightarrow> 'a list \<Rightarrow> nat" where
  "matching_total a b =
     (case find_longest_match a b of (i, j, k) \<Rightarrow>
        if k = 0 then 0
        else k
          + (if 0 < i \<and> 0 < j then matching_total (take i a) (take j b) else 0)
          + (if i + k < length a \<and> j + k < length b
             then matching_total (drop (i + k) a) (drop (j + k) b) else 0))"
  by pat_completeness auto
termination
proof -
  have prefix_le: "common_prefix_len xs ys \<le> length xs \<and> common_prefix_len xs ys \<le> length ys"
    for xs ys :: "'a list"
    by (induction xs ys rule: common_prefix_len.induct) auto
  have fold_inv: "P (fold f xs s)"
    if "P s" and "\<And>x s. x \<in> set xs \<Longrightarrow> P s \<Longrightarrow> P (f x s)"
    for P :: "nat \<times> nat \<times> nat \<Rightarrow> bool" and f and xs :: "nat list" and s
    using that by (induction xs arbitrary: s) auto
  have bounds: "i + k \<le> length a \<and> j + k \<le> length b"
    if eq: "(i, j, k) = find_longest_match a b" for a b :: "'a list" and i j k
  proof -
    let ?P = "\<lambda>(i, j, k). i + k \<le> length a \<and> j + k \<le> length b"
    have "?P (find_longest_match a b)"
      unfolding find_longest_match_def
    proof (rule fold_inv, goal_cases)
      case 1
      show ?case by simp
    next
      case (2 i best)
      note outer = this
      show ?case
      proof (rule fold_inv, goal_cases)
        case 1
        from outer show ?case by simp
      next
        case (2 j s)
        note inner = this
        obtain bi bj bk where s: "s = (bi, bj, bk)" by (cases s) auto
        have "common_prefix_len (drop i a) (drop j b) \<le> length a - i"
          "common_prefix_len (drop i a) (drop j b) \<le> length b - j"
          using prefix_le[of "drop i a" "drop j b"] by auto
        moreover have "i < length a" "j < length b" using outer inner by auto
        ultimately show ?case using inner s by (auto simp: Let_def)
      qed
    qed
    with eq show ?thesis by (simp add: eq[symmetric])
  qed
  show ?thesis
    by (relation "measure (\<lambda>(a, b). length a)") (auto dest!: bounds)
qed

definition calculate_ratio :: "nat \<Rightarrow> nat \<Rightarrow> real" where
  "calculate_ratio matches len = (if len \<noteq> 0 then 2 * real matches / real len else 1)"

definition ratio :: "'a list \<Rightarrow> 'a list \<Rightarrow> real" where
  "ratio a b = calculate_ratio (matching_total a b) (length a + length b)"

text \<open>\<^verbatim>\<open>quick_ratio\<close>: the size of the multiset intersection, counted as the source does.\<close>

definition quick_ratio :: "'a list \<Rightarrow> 'a list \<Rightarrow> real" where
  "quick_ratio a b =
     (let (avail, matches) =
        fold (\<lambda>elt (avail, matches).
                let numb = (case map_of avail elt of
                              Some n \<Rightarrow> n
                            | None \<Rightarrow> int (count_list b elt))
                in ((elt, numb - 1) # avail, if numb > 0 then matches + 1 else matches))
             a ([], 0 :: nat)
      in calculate_ratio matches (length a + length b))"

definition real_quick_ratio :: "'a list \<Rightarrow> 'a list \<Rightarrow> real" where
  "real_quick_ratio a b = calculate_ratio (min (length a) (length b)) (length a + length b)"

text \<open>
  \<^verbatim>\<open>get_close_matches(word, possibilities, n, cutoff)\<close> for \<open>n > 0\<close> and a cutoff in
  \<open>[0, 1]\<close> (the arguments \<^verbatim>\<open>detect_typo\<close> passes): each possibility is sequence 1,
  the word is sequence 2, the three tests short-circuit, and \<^verbatim>\<open>heapq.nlargest\<close> keeps the
  \<open>n\<close> largest \<open>(score, x)\<close> pairs, largest first.
\<close>

definition get_close_matches :: "string \<Rightarrow> string list \<Rightarrow> nat \<Rightarrow> real \<Rightarrow> string list" where
  "get_close_matches word possibilities n cutoff =
     (let result = concat (map (\<lambda>x.
            if real_quick_ratio x word \<ge> cutoff then
              if quick_ratio x word \<ge> cutoff then
                if ratio x word \<ge> cutoff then [(ratio x word, x)] else []
              else []
            else []) possibilities)
      in map snd (take n (rev (sort result))))"

subsection \<open>The detector\<close>

definition COMMON_EMAIL_DOMAINS :: "string list" where
  "COMMON_EMAIL_DOMAINS =
     [''gmail.com'', ''yahoo.com'', ''outlook.com'', ''hotmail.com'', ''aol.com'',
      ''icloud.com'', ''mail.com'', ''gmx.com'', ''protonmail.com'', ''zoho.com'']"

text \<open>
  The unpacking \<^verbatim>\<open>local_part, domain = email.split('@')\<close> raises ValueError unless the
  split has exactly two parts; the handler returns None. The email is any string, so
  \<^verbatim>\<open>domain.lower()\<close> is the parameter \<open>str_lower\<close>: Python's \<^verbatim>\<open>str.lower\<close>, whatever it
  does outside ASCII.
\<close>

definition detect_typo :: "(string \<Rightarrow> string) \<Rightarrow> string \<Rightarrow> string option" where
  "detect_typo str_lower email =
     (case split_str CHR ''@'' email of
        [local_part, domain] \<Rightarrow>
          (let domain = str_lower domain;
               close_matches = get_close_matches domain COMMON_EMAIL_DOMAINS 1 0.8
           in if close_matches \<noteq> [] \<and> hd close_matches \<noteq> domain
              then Some (''Did you mean '@'' @ hd close_matches @ [CHR 0x27] @ ''?'')
              else None)
      | _ \<Rightarrow> None)"

definition is_typo_detected :: "(string \<Rightarrow> string) \<Rightarrow> string \<Rightarrow> bool" where
  "is_typo_detected str_lower email = (detect_typo str_lower email \<noteq> None)"


section \<open>domain\_reputation\_checker.py\<close>

text \<open>
  Scores are Python floats and ints; they are embedded as real numbers with exact
  arithmetic. The context manager \<^verbatim>\<open>ValidationTimer\<close> is not defined in
  \<^verbatim>\<open>metrics.py\<close> and is taken to do nothing. The \<^verbatim>\<open>details\<close> of a result are left out.
\<close>

definition WEIGHTS :: "string \<Rightarrow> real" where
  "WEIGHTS key =
     (if key = ''domain_age'' then 0.25
      else if key = ''blacklist_status'' then 0.30
      else if key = ''ssl_status'' then 0.15
      else if key = ''web_presence'' then 0.15
      else if key = ''mail_config'' then 0.15
      else 0)"

definition BLACKLIST_SERVERS :: "string list" where
  "BLACKLIST_SERVERS =
     [''zen.spamhaus.org'', ''bl.spamcop.net'', ''dnsbl.sorbs.net'', ''spam.abuse.ch'',
      ''cbl.abuseat.org'']"

record DomainReputation =
  score :: real
  risk_level :: string
  error :: string

text \<open>
  What the network gives the checker for a domain:
  \<^item> \<open>whois_lookup\<close>: \<^verbatim>\<open>whois.whois\<close> and the date arithmetic of the same \<^verbatim>\<open>try\<close> block
    raise, or give the age in days of the creation date, \<open>None\<close> when the record has no
    creation date;
  \<^item> \<open>gethostbyname_ex\<close>: whether the lookup of a blacklist server returns (it is the
    server's own name that the source resolves);
  \<^item> \<open>ssl_handshake\<close>: the exception of the TLS connection and certificate read, if any;
  \<^item> \<open>web_get\<close>: the status code of \<^verbatim>\<open>requests.get\<close>, or its exception;
  \<^item> \<open>getaddrinfo\<close>: the addresses of \<^verbatim>\<open>socket.getaddrinfo\<close>, or its exception;
  \<^item> \<open>spf_resolves\<close>, \<open>dmarc_resolves\<close>: whether the two \<^verbatim>\<open>gethostbyname\<close> calls return.
\<close>

record reputation_env =
  whois_lookup :: "string \<Rightarrow> exn + int option"
  gethostbyname_ex :: "string \<Rightarrow> bool"
  ssl_handshake :: "string \<Rightarrow> exn option"
  web_get :: "string \<Rightarrow> exn + int"
  getaddrinfo :: "string \<Rightarrow> exn + string list"
  spf_resolves :: "string \<Rightarrow> bool"
  dmarc_resolves :: "string \<Rightarrow> bool"

text \<open>
  \<^verbatim>\<open>_check_domain_age\<close> returns nothing (Python's None) when the WHOIS record has no
  creation date: the \<^verbatim>\<open>if\<close> has no \<^verbatim>\<open>else\<close> and the function ends.
\<close>

definition check_domain_age :: "reputation_env \<Rightarrow> string \<Rightarrow> real option" where
  "check_domain_age env domain =
     (case whois_lookup env domain of
        Inl e \<Rightarrow> Some 50
      | Inr None \<Rightarrow> None
      | Inr (Some age_days) \<Rightarrow>
          (let max_age = 5 * 365 :: real
           in Some (max 0 (min 100 ((max_age - real_of_int age_days) / max_age * 100)))))"

definition check_blacklists :: "reputation_env \<Rightarrow> string \<Rightarrow> real" where
  "check_blacklists env domain =
     (let listed_on = filter (gethostbyname_ex env) BLACKLIST_SERVERS
      in real (length listed_on) / real (length BLACKLIST_SERVERS) * 100)"

definition check_ssl :: "reputation_env \<Rightarrow> string \<Rightarrow> real" where
  "check_ssl env domain = (case ssl_handshake env domain of None \<Rightarrow> 0 | Some e \<Rightarrow> 100)"

definition check_web_presence :: "reputation_env \<Rightarrow> string \<Rightarrow> real" where
  "check_web_presence env domain =
     (case web_get env domain of
        Inl e \<Rightarrow> 50
      | Inr status \<Rightarrow> if status = 200 then 0 else 50)"

definition check_mail_config :: "reputation_env \<Rightarrow> string \<Rightarrow> real" where
  "check_mail_config env domain =
     (case getaddrinfo env (''@'' @ domain) of
        Inl e \<Rightarrow> 50
      | Inr mx_records \<Rightarrow>
          (if mx_records = [] then 40 else 0)
          + (if \<not> spf_resolves env (''_spf.'' @ domain) then 30 else 0)
          + (if \<not> dmarc_resolves env (''_dmarc.'' @ domain) then 30 else 0))"

text \<open>
  The body of the \<^verbatim>\<open>try\<close> block of \<^verbatim>\<open>check_reputation\<close>. The five sub-checks handle
  their own exceptions; the product \<^verbatim>\<open>age_score * WEIGHTS["domain_age"]\<close> raises a
  TypeError when \<^verbatim>\<open>age_score\<close> is None.
\<close>

definition NoneType_operand_error :: exn where
  "NoneType_operand_error =
     Exn TypeError (''unsupported operand type(s) for *: 'NoneType' and 'float'' @ [CHR 0x27])"

definition high_risk_threshold :: real where
  "high_risk_threshold = 70"

definition medium_risk_threshold :: real where
  "medium_risk_threshold = 40"

definition check_reputation_try :: "reputation_env \<Rightarrow> string \<Rightarrow> exn + DomainReputation" where
  "check_reputation_try env domain =
     (let age_score = check_domain_age env domain;
          blacklist_score = check_blacklists env domain;
          ssl_score = check_ssl env domain;
          web_score = check_web_presence env domain;
          mail_score = check_mail_config env domain
      in case age_score of
           None \<Rightarrow>
             Inl NoneType_operand_error
         | Some age \<Rightarrow>
             (let total_score =
                    0 + age * WEIGHTS ''domain_age''
                      + blacklist_score * WEIGHTS ''blacklist_status''
                      + ssl_score * WEIGHTS ''ssl_status''
                      + web_score * WEIGHTS ''web_presence''
                      + mail_score * WEIGHTS ''mail_config'';
                  risk =
                    (if total_score \<ge> high_risk_threshold then ''high''
                     else if total_score \<ge> medium_risk_threshold then ''medium''
                     else ''low'')
              in Inr \<lparr>score = total_score, risk_level = risk, error = ''''\<rparr>))"

definition check_reputation :: "reputation_env \<Rightarrow> string \<Rightarrow> DomainReputation" where
  "check_reputation env domain =
     (case check_reputation_try env domain of
        Inr result \<Rightarrow> result
      | Inl e \<Rightarrow> \<lparr>score = 100, risk_level = ''high'', error = str_exn e\<rparr>)"


section \<open>smtp\_verifier.py\<close>

text \<open>
  \<^verbatim>\<open>SMTPResult\<close> without its \<^verbatim>\<open>details\<close>; the field \<^verbatim>\<open>error\<close> is called \<open>smtp_error\<close>
  here. \<open>smtp_result\<close> builds one with the defaults of the dataclass.
\<close>

record SMTPResult =
  valid :: bool
  smtp_error :: string
  code :: int
  message :: string
  supports_tls :: bool






text \<open>
  \<^verbatim>\<open>validate_dns\<close> is imported from \<^verbatim>\<open>dns_resolver.py\<close>, which does not define it; its
  result is a field of the environment: it raises, or gives the \<^verbatim>\<open>valid\<close> flag and the
  \<^verbatim>\<open>mx_records\<close> of the \<^verbatim>\<open>details\<close>.
\<close>

record dns_result =
  dns_valid :: bool
  mx_records :: "(int \<times> string) list"










section \<open>syntax\_validator.py\<close>

text \<open>
  The regular expression \<^verbatim>\<open>^[a-zA-Z0-9.!#$%&'*+/=?^_`{|}~-]+@[a-zA-Z0-9-]+(?:\.[a-zA-Z0-9-]+)*$\<close>
  under \<^verbatim>\<open>re.match\<close>. Neither character class holds \<^verbatim>\<open>@\<close>, so a match has exactly
  one; \<^verbatim>\<open>$\<close> also matches just before a final newline.
\<close>

definition alnum :: "char \<Rightarrow> bool" where
  "alnum c \<longleftrightarrow>
     (CHR ''a'' \<le> c \<and> c \<le> CHR ''z'') \<or> (CHR ''A'' \<le> c \<and> c \<le> CHR ''Z'')
     \<or> (CHR ''0'' \<le> c \<and> c \<le> CHR ''9'')"

definition local_char :: "char \<Rightarrow> bool" where
  "local_char c \<longleftrightarrow> alnum c \<or> c \<in> set (''.!#$%&'*+/=?^_`{|}~-'')"

definition domain_char :: "char \<Rightarrow> bool" where
  "domain_char c \<longleftrightarrow> alnum c \<or> c = CHR ''-''"

definition regex_match :: "string \<Rightarrow> bool" where
  "regex_match email =
     (let s = (if email \<noteq> [] \<and> last email = CHR 0x0A then butlast email else email)
      in case split_str CHR ''@'' s of
           [local_part, domain] \<Rightarrow>
             local_part \<noteq> [] \<and> list_all local_char local_part
             \<and> list_all (\<lambda>label. label \<noteq> [] \<and> list_all domain_char label)
                  (split_str CHR ''.'' domain)
         | _ \<Rightarrow> False)"

definition validate_syntax :: "string \<Rightarrow> exn + bool" where
  "validate_syntax email =
     (if regex_match email then Inr True
      else Inl (Exn ValidationError ''Invalid email syntax.''))"


section \<open>validation\_orchestrator.py\<close>

subsection \<open>The result dictionary\<close>

text \<open>
  \<^verbatim>\<open>results\<close> and its \<^verbatim>\<open>checks\<close>, one field per key; the keys \<^verbatim>\<open>email\<close>,
  \<^verbatim>\<open>score\<close> and \<^verbatim>\<open>error\<close> are the fields \<open>result_email\<close>, \<open>result_score\<close> and
  \<open>result_error\<close>, and the \<^verbatim>\<open>dns\<close> check is \<open>dns_check\<close>. The key \<^verbatim>\<open>smtp\<close> is absent until
  the SMTP step stores it; the typo suggestions are the empty list until a suggestion is
  stored.
\<close>

record checks_dict =
  syntax_is_valid :: bool
  dns_check :: "string \<rightharpoonup> bool"
  smtp_verified :: "SMTPResult option"
  is_disposable :: bool
  is_role :: bool
  is_trap :: bool
  is_catch_all :: bool
  typo_suggestions :: "string option"
  reputation_score :: int

record results =
  result_email :: string
  is_valid :: bool
  checks :: checks_dict
  result_score :: real
  result_error :: "string option"

definition initial_results :: "string \<Rightarrow> results" where
  "initial_results e =
     \<lparr>result_email = e, is_valid = False,
      checks = \<lparr>syntax_is_valid = False, dns_check = Map.empty, smtp_verified = None,
                is_disposable = False, is_role = False, is_trap = False,
                is_catch_all = False, typo_suggestions = None, reputation_score = 0\<rparr>,
      result_score = 0, result_error = None\<rparr>"

subsection \<open>The module's own \<^verbatim>\<open>calculate_risk_score\<close>\<close>

text \<open>
  The \<^verbatim>\<open>def calculate_risk_score\<close> at the end of the module rebinds the name imported
  from \<^verbatim>\<open>risk_score.py\<close>, so it is the function \<^verbatim>\<open>validate_email\<close> calls. It reads a
  flat dictionary; a missing key raises KeyError.
\<close>

datatype pyval = PNone | PBool bool | PNum real | PStr string | PDict

fun truthy :: "pyval \<Rightarrow> bool" where
  "truthy PNone = False"
| "truthy (PBool b) = b"
| "truthy (PNum n) = (n \<noteq> 0)"
| "truthy (PStr s) = (s \<noteq> [])"
| "truthy PDict = True"

fun number :: "pyval \<Rightarrow> real option" where
  "number (PBool b) = Some (if b then 1 else 0)"
| "number (PNum n) = Some n"
| "number _ = None"

definition bindE :: "exn + 'a \<Rightarrow> ('a \<Rightarrow> exn + 'b) \<Rightarrow> exn + 'b" where
  "bindE m f = (case m of Inl e \<Rightarrow> Inl e | Inr x \<Rightarrow> f x)"

definition add_if_not :: "(string \<rightharpoonup> pyval) \<Rightarrow> string \<Rightarrow> real \<Rightarrow> real \<Rightarrow> exn + real" where
  "add_if_not d key points sc =
     (case d key of
        None \<Rightarrow> Inl (Exn KeyError key)
      | Some v \<Rightarrow> Inr (if \<not> truthy v then sc + points else sc))"

definition add_if :: "(string \<rightharpoonup> pyval) \<Rightarrow> string \<Rightarrow> real \<Rightarrow> real \<Rightarrow> exn + real" where
  "add_if d key points sc =
     (case d key of
        None \<Rightarrow> Inl (Exn KeyError key)
      | Some v \<Rightarrow> Inr (if truthy v then sc + points else sc))"

definition calculate_risk_score :: "(string \<rightharpoonup> pyval) \<Rightarrow> exn + real" where
  "calculate_risk_score validation_result =
     bindE (add_if_not validation_result ''syntax_valid'' 40 0) (\<lambda>sc.
     bindE (add_if_not validation_result ''domain_exists'' 40 sc) (\<lambda>sc.
     bindE (add_if_not validation_result ''mx_records_valid'' 30 sc) (\<lambda>sc.
     bindE (add_if_not validation_result ''smtp_verified'' 20 sc) (\<lambda>sc.
     bindE (add_if_not validation_result ''has_ptr'' 10 sc) (\<lambda>sc.
     bindE (add_if validation_result ''disposable'' 15 sc) (\<lambda>sc.
     bindE (add_if validation_result ''role_account'' 5 sc) (\<lambda>sc.
     bindE (add_if validation_result ''spam_trap'' 40 sc) (\<lambda>sc.
     bindE (add_if validation_result ''catch_all'' 10 sc) (\<lambda>sc.
       case validation_result ''domain_reputation'' of
         None \<Rightarrow> Inl (Exn KeyError ''domain_reputation'')
       | Some v \<Rightarrow>
           (case number v of
              None \<Rightarrow> Inl (Exn TypeError ''unsupported operand type(s) for -'')
            | Some reputation \<Rightarrow>
                (let reputation_factor = (100 - reputation) * 0.2
                 in Inr (min 100 (sc + reputation_factor)))))))))))))"

text \<open>The dictionary that \<^verbatim>\<open>validate_email\<close> passes: its five top-level keys.\<close>

definition results_dict :: "results \<Rightarrow> (string \<rightharpoonup> pyval)" where
  "results_dict r =
     map_of
       [(''email'', PStr (result_email r)),
        (''is_valid'', PBool (is_valid r)),
        (''checks'', PDict),
        (''score'', PNum (result_score r)),
        (''error'', case result_error r of None \<Rightarrow> PNone | Some s \<Rightarrow> PStr s)]"

subsection \<open>The collaborators\<close>

text \<open>
  \<^verbatim>\<open>validate_email\<close> awaits \<^verbatim>\<open>dns_validator.validate_domain\<close>, \<^verbatim>\<open>verify_smtp\<close>,
  \<^verbatim>\<open>is_disposable_email\<close>, \<^verbatim>\<open>get_domain_reputation\<close>, \<^verbatim>\<open>spam_trap_detector.check\<close> and
  \<^verbatim>\<open>catch_all_detector.check\<close>, and calls \<^verbatim>\<open>is_role_account\<close>. The two \<^verbatim>\<open>check\<close>
  methods and \<^verbatim>\<open>is_role_account\<close> are not defined in their modules, and the awaited
  functions are plain functions there; each call is a field of the environment that
  gives what the awaited call returns or raises. The module binds no \<^verbatim>\<open>logger\<close>;
  \<open>logger_bound\<close> says whether the name resolves when a handler runs (it does not in
  the module as written). \<^verbatim>\<open>RateLimitExceeded\<close> is not bound either.
\<close>

record validation_env =
  logger_bound :: bool
  validate_domain :: "string \<Rightarrow> exn + (string \<rightharpoonup> bool)"
  verify_smtp_call :: "string \<Rightarrow> exn + SMTPResult"
  is_disposable_email_call :: "string \<Rightarrow> exn + bool"
  is_role_account :: "string \<Rightarrow> exn + bool"
  get_domain_reputation :: "string \<Rightarrow> exn + int"
  spam_trap_check :: "string \<Rightarrow> exn + bool"
  catch_all_check :: "string \<Rightarrow> exn + bool"

datatype call =
    Validate_domain string
  | Verify_smtp string
  | Is_disposable_email string
  | Is_role_account string
  | Detect_typo string
  | Get_domain_reputation string
  | Spam_trap_check string
  | Catch_all_check string

definition logger_name_error :: exn where
  "logger_name_error = Exn NameError (''name 'logger' is not defined'')"

definition rate_limit_name_error :: exn where
  "rate_limit_name_error = Exn NameError (''name 'RateLimitExceeded' is not defined'')"

text \<open>
  A handler of the shape \<^verbatim>\<open>logger.error(...); results["error"] = prefix + str(e);
  return results\<close>.
\<close>

definition handler :: "validation_env \<Rightarrow> results \<Rightarrow> string \<Rightarrow> exn \<Rightarrow> exn + results" where
  "handler env res prefix e =
     (if logger_bound env then Inr (res\<lparr>result_error := Some (prefix @ str_exn e)\<rparr>)
      else Inl logger_name_error)"

definition extract_domain :: "string \<Rightarrow> string" where
  "extract_domain e =
     (case split_str CHR ''@'' e of
        local_part # domain # rest \<Rightarrow> lower domain
      | _ \<Rightarrow> '''')"

definition dict_get :: "(string \<rightharpoonup> bool) \<Rightarrow> string \<Rightarrow> bool" where
  "dict_get d key = (case d key of None \<Rightarrow> False | Some v \<Rightarrow> v)"


subsection \<open>\<^verbatim>\<open>validate_email\<close>\<close>

text \<open>
  The third \<^verbatim>\<open>try\<close> block (the additional validation steps, the validity and the score)
  with its handler. Next to the outcome it gives the calls made, in order. Every exit
  lists its calls in full. The block is reached only after \<^verbatim>\<open>validate_syntax\<close> has
  accepted the email, which is then ASCII text, so \<open>lower\<close> is its lowercasing.
\<close>

definition fan_out :: "validation_env \<Rightarrow> string \<Rightarrow> string \<Rightarrow> (string \<rightharpoonup> bool) \<Rightarrow> results
    \<Rightarrow> (exn + results) \<times> call list" where
  "fan_out env e domain dns_results res0 =
     (case verify_smtp_call env domain of
        Inl x \<Rightarrow> (handler env res0 ''Validation error: '' x, [Verify_smtp domain])
      | Inr smtp_res \<Rightarrow>
     (let res1 = res0\<lparr>checks := (checks res0)\<lparr>smtp_verified := Some smtp_res\<rparr>\<rparr> in
      case is_disposable_email_call env e of
        Inl x \<Rightarrow> (handler env res1 ''Validation error: '' x,
                  [Verify_smtp domain, Is_disposable_email e])
      | Inr disposable \<Rightarrow>
     (let res2 = res1\<lparr>checks := (checks res1)\<lparr>is_disposable := disposable\<rparr>\<rparr> in
      case is_role_account env e of
        Inl x \<Rightarrow> (handler env res2 ''Validation error: '' x,
                  [Verify_smtp domain, Is_disposable_email e, Is_role_account e])
      | Inr role \<Rightarrow>
     (let res3 = res2\<lparr>checks := (checks res2)\<lparr>is_role := role\<rparr>\<rparr>;
          res4 = (case detect_typo lower e of
                    None \<Rightarrow> res3
                  | Some suggestion \<Rightarrow>
                      res3\<lparr>checks := (checks res3)\<lparr>typo_suggestions := Some suggestion\<rparr>\<rparr>) in
      case get_domain_reputation env domain of
        Inl x \<Rightarrow> (handler env res4 ''Validation error: '' x,
                  [Verify_smtp domain, Is_disposable_email e, Is_role_account e,
                   Detect_typo e, Get_domain_reputation domain])
      | Inr reputation \<Rightarrow>
     (let res5 = res4\<lparr>checks := (checks res4)\<lparr>reputation_score := reputation\<rparr>\<rparr> in
      case spam_trap_check env e of
        Inl x \<Rightarrow> (handler env res5 ''Validation error: '' x,
                  [Verify_smtp domain, Is_disposable_email e, Is_role_account e,
                   Detect_typo e, Get_domain_reputation domain, Spam_trap_check e])
      | Inr trap \<Rightarrow>
     (let res6 = res5\<lparr>checks := (checks res5)\<lparr>is_trap := trap\<rparr>\<rparr> in
      case catch_all_check env domain of
        Inl x \<Rightarrow> (handler env res6 ''Validation error: '' x,
                  [Verify_smtp domain, Is_disposable_email e, Is_role_account e,
                   Detect_typo e, Get_domain_reputation domain, Spam_trap_check e,
                   Catch_all_check domain])
      | Inr catch_all \<Rightarrow>
     (let res7 = res6\<lparr>checks := (checks res6)\<lparr>is_catch_all := catch_all\<rparr>\<rparr>;
          res8 = res7\<lparr>is_valid :=
                   (syntax_is_valid (checks res7) \<and> dict_get dns_results ''has_mx''
                    \<and> \<not> is_disposable (checks res7) \<and> \<not> is_trap (checks res7))\<rparr> in
      (case calculate_risk_score (results_dict res8) of
         Inl x \<Rightarrow> handler env res8 ''Validation error: '' x
       | Inr sc \<Rightarrow> Inr (res8\<lparr>result_score := sc\<rparr>),
       [Verify_smtp domain, Is_disposable_email e, Is_role_account e,
        Detect_typo e, Get_domain_reputation domain, Spam_trap_check e,
        Catch_all_check domain]))))))))"

text \<open>
  \<^verbatim>\<open>validate_email\<close>. \<^verbatim>\<open>extract_domain\<close> raises no ValidationError. A failure of the DNS
  step reaches \<^verbatim>\<open>except RateLimitExceeded\<close>, whose class name is not bound.
\<close>

definition validate_email :: "validation_env \<Rightarrow> string \<Rightarrow> (exn + results) \<times> call list" where
  "validate_email env e =
     (let res = initial_results e;
          domain = extract_domain e
      in case validate_syntax e of
           Inl x \<Rightarrow> (handler env res ''Syntax validation error: '' x, [])
         | Inr ok \<Rightarrow>
             if \<not> ok then (Inr (res\<lparr>result_error := Some ''Invalid email syntax''\<rparr>), [])
             else
               (let res = res\<lparr>checks := (checks res)\<lparr>syntax_is_valid := True\<rparr>\<rparr> in
                case validate_domain env domain of
                  Inl x \<Rightarrow> (Inl rate_limit_name_error, [Validate_domain domain])
                | Inr dns_results \<Rightarrow>
                    (let res = res\<lparr>checks := (checks res)\<lparr>dns_check := dns_results\<rparr>\<rparr> in
                     if \<not> dict_get dns_results ''has_mx'' \<and> \<not> dict_get dns_results ''has_a''
                     then (Inr (res\<lparr>result_error := Some ''Domain has no valid mail servers''\<rparr>),
                           [Validate_domain domain])
                     else
                       (case fan_out env e domain dns_results res of
                          (outcome, calls) \<Rightarrow> (outcome, Validate_domain domain # calls)))))"

subsection \<open>\<^verbatim>\<open>validate_emails_batch\<close>\<close>

text \<open>
  An entry of a batch result: a result dictionary, or the dictionary
  \<^verbatim>\<open>{"email", "is_valid": False, "status": "Error", "error"}\<close> built for an exception.
\<close>

datatype batch_item = Result results | Error_result string string

text \<open>
  \<^verbatim>\<open>process_batch\<close> is defined inside \<^verbatim>\<open>validate_emails_batch\<close>. \<^verbatim>\<open>asyncio.gather\<close>
  returns the outcomes in the order of the tasks.
\<close>

definition process_batch :: "validation_env \<Rightarrow> string list \<Rightarrow> batch_item list" where
  "process_batch env batch =
     map (\<lambda>e. case fst (validate_email env e) of
                 Inl x \<Rightarrow> Error_result e (str_exn x)
               | Inr result \<Rightarrow> Result result) batch"

text \<open>
  What \<^verbatim>\<open>validate_emails_batch\<close> returns: the dictionary with \<^verbatim>\<open>results\<close> and the
  \<^verbatim>\<open>summary\<close> counts \<^verbatim>\<open>total, valid, invalid, errors\<close>, or the bare list \<^verbatim>\<open>results\<close>.
\<close>

datatype batch_return =
    Results_and_summary "batch_item list" nat nat nat nat
  | Results_list "batch_item list"

text \<open>
  The loop over the batches stands after the \<^verbatim>\<open>return\<close> of \<^verbatim>\<open>process_batch\<close>, inside
  that function; \<^verbatim>\<open>validate_emails_batch\<close> itself defines \<^verbatim>\<open>process_batch\<close>, never calls
  it, and returns the list \<^verbatim>\<open>results\<close> it initialised.
\<close>

definition validate_emails_batch :: "validation_env \<Rightarrow> string list \<Rightarrow> nat \<Rightarrow> batch_return" where
  "validate_emails_batch env emails batch_size =
     (if emails = [] then Results_and_summary [] 0 0 0 0
      else (let results = [] in Results_list results))"

fun returned_results :: "batch_return \<Rightarrow> batch_item list" where
  "returned_results (Results_and_summary rs n_total n_valid n_invalid n_errors) = rs"
| "returned_results (Results_list rs) = rs"

subsection \<open>Test environments\<close>

text \<open>
  Every collaborator healthy: MX and A records present, SMTP answering 250, reputation
  80, not disposable, no role account, no spam trap, no catch-all.
\<close>

definition healthy_env :: "bool \<Rightarrow> validation_env" where
  "healthy_env lb =
     \<lparr>logger_bound = lb,
      validate_domain = (\<lambda>d. Inr [''has_mx'' \<mapsto> True, ''has_a'' \<mapsto> True, ''has_ptr'' \<mapsto> True]),
      verify_smtp_call = (\<lambda>d. Inr \<lparr>valid = True, smtp_error = '''', code = 250,
                                    message = ''OK'', supports_tls = True\<rparr>),
      is_disposable_email_call = (\<lambda>e. Inr False),
      is_role_account = (\<lambda>e. Inr False),
      get_domain_reputation = (\<lambda>d. Inr 80),
      spam_trap_check = (\<lambda>e. Inr False),
      catch_all_check = (\<lambda>d. Inr False)\<rparr>"

text \<open>The same, except that the SMTP check raises.\<close>

definition smtp_raising_env :: "bool \<Rightarrow> validation_env" where
  "smtp_raising_env lb =
     (healthy_env lb)\<lparr>verify_smtp_call := (\<lambda>d. Inl (Exn OtherException ''connection reset''))\<rparr>"


text \<open>
  Every collaborator healthy except \<^verbatim>\<open>catch_all_detector.check\<close>, the last call of the
  block, which raises (the class defines no \<^verbatim>\<open>check\<close>).
\<close>

definition catch_all_raising_env :: "bool \<Rightarrow> validation_env" where
  "catch_all_raising_env lb =
     (healthy_env lb)\<lparr>catch_all_check :=
        (\<lambda>d. Inl (Exn OtherException ''object has no attribute check''))\<rparr>"


subsection \<open>The post-DNS checks as a list\<close>

text \<open>
  For stating which checks ran: the checks that follow the DNS step, in the order of
  the source, and whether a call raises in an environment (\<^verbatim>\<open>detect_typo\<close> handles its
  own exception and raises nothing).
\<close>

definition post_dns_checks :: "string \<Rightarrow> string \<Rightarrow> call list" where
  "post_dns_checks e domain =
     [Verify_smtp domain, Is_disposable_email e, Is_role_account e, Detect_typo e,
      Get_domain_reputation domain, Spam_trap_check e, Catch_all_check domain]"

fun raises :: "validation_env \<Rightarrow> call \<Rightarrow> bool" where
  "raises env (Validate_domain d) = isl (validate_domain env d)"
| "raises env (Verify_smtp d) = isl (verify_smtp_call env d)"
| "raises env (Is_disposable_email e) = isl (is_disposable_email_call env e)"
| "raises env (Is_role_account e) = isl (is_role_account env e)"
| "raises env (Detect_typo e) = False"
| "raises env (Get_domain_reputation d) = isl (get_domain_reputation env d)"
| "raises env (Spam_trap_check e) = isl (spam_trap_check env e)"
| "raises env (Catch_all_check d) = isl (catch_all_check env d)"


text \<open>The \<^verbatim>\<open>email\<close> key of a batch entry.\<close>

fun item_email :: "batch_item \<Rightarrow> string" where
  "item_email (Result r) = result_email r"
| "item_email (Error_result e msg) = e"


section \<open>risk\_score.py\<close>

text \<open>
  The \<^verbatim>\<open>calculate_risk_score\<close> that \<^verbatim>\<open>validation_orchestrator.py\<close> imports and then
  rebinds; it reads the nested dictionary and counts upwards ("higher is better"). The
  value stored under \<^verbatim>\<open>smtp.verified\<close> is the dictionary \<^verbatim>\<open>verify_smtp\<close> returned, which
  is true as a condition whenever it is there. \<^verbatim>\<open>int(x / 100)\<close> rounds towards zero.
\<close>

definition int_of_quotient :: "int \<Rightarrow> int \<Rightarrow> int" where
  "int_of_quotient a b = (if a \<ge> 0 then a div b else - ((- a) div b))"

definition risk_score_calculate_risk_score :: "results \<Rightarrow> int" where
  "risk_score_calculate_risk_score validation_result =
     (let c = checks validation_result;
          sc = 0;
          sc = (if syntax_is_valid c then sc + 20 else sc);
          dns_score = 0;
          dns_score = (if dict_get (dns_check c) ''has_mx'' then dns_score + 15 else dns_score);
          dns_score = (if dict_get (dns_check c) ''has_a'' then dns_score + 10 else dns_score);
          dns_score = (if dict_get (dns_check c) ''has_ptr'' then dns_score + 5 else dns_score);
          sc = sc + min dns_score 30;
          sc = (if smtp_verified c \<noteq> None then sc + 20 else sc);
          sc = (if \<not> is_disposable c then sc + 10 else sc);
          sc = (if \<not> is_trap c then sc + 10 else sc);
          sc = sc + int_of_quotient (10 * reputation_score c) 100
      in min (max sc 0) 100)"


section \<open>Properties\<close>

subsection \<open>Disposable detector\<close>

lemma split_str_nonempty: "split_str sep s \<noteq> []"
  by (induction s) (auto split: list.splits)

text \<open>
  C8 (amended). If the lookup raises a \<^verbatim>\<open>requests.RequestException\<close> (the class the
  handler names) or the API answers with a status other than 200,
  \<^verbatim>\<open>is_disposable_email\<close> returns False for every email. An exception of any other class
  raised by the lookup is not caught: it reaches the caller.
\<close>

theorem is_disposable_email_fails_open:
  "((\<exists>m. requests_get
            (DISPOSABLE_EMAIL_API_URL @ ''?domain='' @ last (split_str CHR ''@'' email))
          = Inl (Exn RequestException m))
      \<or> (\<exists>r. requests_get
            (DISPOSABLE_EMAIL_API_URL @ ''?domain='' @ last (split_str CHR ''@'' email))
          = Inr r \<and> status_code r \<noteq> 200)
      \<longrightarrow> is_disposable_email requests_get email = Inr False)
   \<and> (\<forall>e. requests_get
            (DISPOSABLE_EMAIL_API_URL @ ''?domain='' @ last (split_str CHR ''@'' email))
          = Inl e \<and> \<not> exn_is RequestException e
      \<longrightarrow> is_disposable_email requests_get email = Inl e)"
proof (intro conjI impI allI)
  assume "(\<exists>m. requests_get
            (DISPOSABLE_EMAIL_API_URL @ ''?domain='' @ last (split_str CHR ''@'' email))
          = Inl (Exn RequestException m))
      \<or> (\<exists>r. requests_get
            (DISPOSABLE_EMAIL_API_URL @ ''?domain='' @ last (split_str CHR ''@'' email))
          = Inr r \<and> status_code r \<noteq> 200)"
  then show "is_disposable_email requests_get email = Inr False"
    by (auto simp: is_disposable_email_def Let_def)
next
  fix e
  assume "requests_get
            (DISPOSABLE_EMAIL_API_URL @ ''?domain='' @ last (split_str CHR ''@'' email))
          = Inl e \<and> \<not> exn_is RequestException e"
  then show "is_disposable_email requests_get email = Inl e"
    by (simp add: is_disposable_email_def Let_def)
qed

text \<open>
  An I/O error that is no \<^verbatim>\<open>RequestException\<close> does not give False: an \<^verbatim>\<open>OSError\<close> or a
  \<^verbatim>\<open>socket.timeout\<close> raised by the lookup leaves \<^verbatim>\<open>is_disposable_email\<close> as it is.
\<close>

theorem is_disposable_email_other_io_error_propagates:
  "is_disposable_email (\<lambda>url. Inl (Exn OSError ''invalid path to the CA bundle''))
      ''user@example.com'' = Inl (Exn OSError ''invalid path to the CA bundle'')
   \<and> is_disposable_email (\<lambda>url. Inl (Exn SocketTimeout ''timed out''))
      ''user@example.com'' = Inl (Exn SocketTimeout ''timed out'')"
  by (simp add: is_disposable_email_def Let_def)

theorem is_disposable_email_fails_open_witness:
  "is_disposable_email (\<lambda>url. Inl (Exn RequestException ''connection refused''))
      ''user@example.com'' = Inr False
   \<and> is_disposable_email
        (\<lambda>url. Inr \<lparr>status_code = 503, json_body = Inr (\<lambda>k. Some True)\<rparr>)
        ''user@example.com'' = Inr False
   \<and> is_disposable_email (\<lambda>url. Inl (Exn OSError ''invalid path to the CA bundle''))
        ''user@example.com'' = Inl (Exn OSError ''invalid path to the CA bundle'')"
proof -
  have a: "is_disposable_email (\<lambda>url. Inl (Exn RequestException ''connection refused''))
             ''user@example.com'' = Inr False"
    by (rule is_disposable_email_fails_open[THEN conjunct1, THEN mp]) simp
  have b: "is_disposable_email
             (\<lambda>url. Inr \<lparr>status_code = 503, json_body = Inr (\<lambda>k. Some True)\<rparr>)
             ''user@example.com'' = Inr False"
    by (rule is_disposable_email_fails_open[THEN conjunct1, THEN mp]) simp
  have c: "is_disposable_email (\<lambda>url. Inl (Exn OSError ''invalid path to the CA bundle''))
             ''user@example.com'' = Inl (Exn OSError ''invalid path to the CA bundle'')"
    by (rule is_disposable_email_fails_open[THEN conjunct2, THEN spec, THEN mp]) simp
  from a b c show ?thesis by simp
qed

subsection \<open>Catch-all confidence\<close>

lemma fold_max_ge: "a \<le> fold max xs (a::nat)"
  by (induction xs arbitrary: a) (auto intro: order_trans[OF max.cobounded2])

lemma fold_max_bound:
  "(\<And>x. x \<in> set xs \<Longrightarrow> x \<le> b) \<Longrightarrow> a \<le> b \<Longrightarrow> fold max xs (a::nat) \<le> b"
  by (induction xs arbitrary: a) auto

lemma fold_max_mem: "x \<in> set xs \<Longrightarrow> x \<le> fold max xs (a::nat)"
proof (induction xs arbitrary: a)
  case Nil
  then show ?case by simp
next
  case (Cons y ys)
  show ?case
  proof (cases "x = y")
    case True
    have "y \<le> max y a" by simp
    also have "\<dots> \<le> fold max ys (max y a)" by (rule fold_max_ge)
    finally show ?thesis using True by simp
  next
    case False
    with Cons show ?thesis by simp
  qed
qed

lemma fold_max_in: "xs \<noteq> [] \<Longrightarrow> fold max xs (0::nat) \<in> set xs"
proof -
  have gen: "fold max xs (a::nat) = a \<or> fold max xs a \<in> set xs" for a xs
  proof (induction xs arbitrary: a)
    case Nil
    then show ?case by simp
  next
    case (Cons y ys)
    from Cons[of "max y a"] show ?case by (auto simp: max_def split: if_splits)
  qed
  assume ne: "xs \<noteq> []"
  from gen[of xs 0] show ?thesis
  proof
    assume z: "fold max xs 0 = 0"
    from ne obtain x where x: "x \<in> set xs" by (cases xs) auto
    from fold_max_mem[OF x, of 0] z have "x = 0" by simp
    with x z show ?thesis by simp
  qed simp
qed

lemma dominant_count_Max:
  assumes "codes \<noteq> []"
  shows "dominant_count codes = Max (count_list codes ` set codes)"
proof -
  let ?xs = "map (count_list codes) codes"
  have ne: "?xs \<noteq> []" using assms by simp
  have mem: "fold max ?xs 0 \<in> set ?xs" by (rule fold_max_in[OF ne])
  have ub: "\<And>x. x \<in> set ?xs \<Longrightarrow> x \<le> fold max ?xs 0" by (rule fold_max_mem)
  have "Max (set ?xs) = fold max ?xs 0"
    by (rule Max_eqI) (use mem ub in auto)
  then show ?thesis by (simp add: dominant_count_def)
qed

lemma count_list_all_same:
  "\<forall>c \<in> set codes. c = a \<Longrightarrow> count_list codes a = length codes"
  by (induction codes) auto

lemma count_list_lt_length:
  "b \<in> set codes \<Longrightarrow> b \<noteq> a \<Longrightarrow> count_list codes a < length codes"
proof (induction codes)
  case Nil
  then show ?case by simp
next
  case (Cons x xs)
  have le: "count_list xs a \<le> length xs" by (rule count_le_length)
  show ?case
  proof (cases "x = a")
    case True
    with Cons have "b \<in> set xs" by auto
    with Cons True show ?thesis by simp
  next
    case False
    with le show ?thesis by simp
  qed
qed

text \<open>
  C9. \<^verbatim>\<open>_calculate_confidence\<close> is a function of the response codes alone; a non-empty
  list of identical codes gives 1.0, the empty list gives 0.0, and a list holding two
  different codes gives the dominant code's share of the list, which is below 1.0.
\<close>

theorem calculate_confidence_spec:
  "(codes \<noteq> [] \<and> (\<forall>c \<in> set codes. c = hd codes) \<longrightarrow> calculate_confidence codes = 1)
   \<and> calculate_confidence [] = 0
   \<and> ((\<exists>a \<in> set codes. \<exists>b \<in> set codes. a \<noteq> b) \<longrightarrow>
        calculate_confidence codes
          = real (Max (count_list codes ` set codes)) / real (length codes)
        \<and> calculate_confidence codes < 1)"
proof (intro conjI impI)
  assume h: "codes \<noteq> [] \<and> (\<forall>c \<in> set codes. c = hd codes)"
  then have ne: "codes \<noteq> []" and same: "\<forall>c \<in> set codes. c = hd codes" by auto
  have "count_list codes ` set codes = {length codes}"
  proof -
    have "set codes = {hd codes}" using ne same by (cases codes) auto
    then show ?thesis using count_list_all_same[OF same] by simp
  qed
  then have "dominant_count codes = length codes"
    using dominant_count_Max[OF ne] by simp
  then show "calculate_confidence codes = 1"
    using ne by (simp add: calculate_confidence_def)
next
  show "calculate_confidence [] = 0" by (simp add: calculate_confidence_def)
next
  assume mixed: "\<exists>a \<in> set codes. \<exists>b \<in> set codes. a \<noteq> b"
  then have ne: "codes \<noteq> []" by auto
  show "calculate_confidence codes
          = real (Max (count_list codes ` set codes)) / real (length codes)"
    using ne by (simp add: calculate_confidence_def dominant_count_Max)
next
  assume mixed: "\<exists>a \<in> set codes. \<exists>b \<in> set codes. a \<noteq> b"
  then have ne: "codes \<noteq> []" by auto
  have "Max (count_list codes ` set codes) \<in> count_list codes ` set codes"
    by (rule Max_in) (use ne in auto)
  then obtain a where a: "a \<in> set codes"
    and m: "Max (count_list codes ` set codes) = count_list codes a" by auto
  from mixed a obtain b where "b \<in> set codes" "b \<noteq> a" by metis
  then have "count_list codes a < length codes" by (rule count_list_lt_length)
  then have "dominant_count codes < length codes"
    using dominant_count_Max[OF ne] m by simp
  then show "calculate_confidence codes < 1"
    using ne by (simp add: calculate_confidence_def)
qed

theorem calculate_confidence_spec_witness:
  "calculate_confidence [250, 250, 250] = 1
   \<and> calculate_confidence [] = 0
   \<and> calculate_confidence [250, 550, 250] = 2 / 3
   \<and> calculate_confidence [250, 550, 250] < 1"
proof -
  have m: "Max (count_list [250, 550, 250 :: int] ` set [250, 550, 250]) = 2"
    by simp
  have a: "calculate_confidence [250, 250, 250] = 1"
    using calculate_confidence_spec[of "[250, 250, 250]"] by simp
  have mixed: "\<exists>a \<in> set [250, 550, 250 :: int]. \<exists>b \<in> set [250, 550, 250]. a \<noteq> b"
    by (intro bexI[of _ 250] bexI[of _ 550]) simp_all
  have b: "calculate_confidence [250, 550, 250] = 2 / 3
           \<and> calculate_confidence [250, 550, 250] < 1"
    using calculate_confidence_spec[of "[250, 550, 250]",
        THEN conjunct2, THEN conjunct2, THEN mp, OF mixed] m by simp
  have c: "calculate_confidence [] = 0"
    using calculate_confidence_spec[of "[]"] by simp
  from a b c show ?thesis by simp
qed

subsection \<open>Typo detector\<close>

lemma close_gmail:
  "get_close_matches ''gmail.com'' COMMON_EMAIL_DOMAINS 1 0.8 = [''gmail.com'']"
  by code_simp

lemma close_yahoo:
  "get_close_matches ''yahoo.com'' COMMON_EMAIL_DOMAINS 1 0.8 = [''yahoo.com'']"
  by code_simp

lemma close_outlook:
  "get_close_matches ''outlook.com'' COMMON_EMAIL_DOMAINS 1 0.8 = [''outlook.com'']"
  by code_simp

lemma close_hotmail:
  "get_close_matches ''hotmail.com'' COMMON_EMAIL_DOMAINS 1 0.8 = [''hotmail.com'']"
  by code_simp

lemma close_aol:
  "get_close_matches ''aol.com'' COMMON_EMAIL_DOMAINS 1 0.8 = [''aol.com'']"
  by code_simp

lemma close_icloud:
  "get_close_matches ''icloud.com'' COMMON_EMAIL_DOMAINS 1 0.8 = [''icloud.com'']"
  by code_simp

lemma close_mail:
  "get_close_matches ''mail.com'' COMMON_EMAIL_DOMAINS 1 0.8 = [''mail.com'']"
  by code_simp

lemma close_gmx:
  "get_close_matches ''gmx.com'' COMMON_EMAIL_DOMAINS 1 0.8 = [''gmx.com'']"
  by code_simp

lemma close_protonmail:
  "get_close_matches ''protonmail.com'' COMMON_EMAIL_DOMAINS 1 0.8 = [''protonmail.com'']"
  by code_simp

lemma close_zoho:
  "get_close_matches ''zoho.com'' COMMON_EMAIL_DOMAINS 1 0.8 = [''zoho.com'']"
  by code_simp

lemma close_common:
  assumes "d \<in> set COMMON_EMAIL_DOMAINS"
  shows "get_close_matches d COMMON_EMAIL_DOMAINS 1 0.8 = [d]"
proof -
  from assms have
    "d = ''gmail.com'' \<or> d = ''yahoo.com'' \<or> d = ''outlook.com'' \<or> d = ''hotmail.com''
     \<or> d = ''aol.com'' \<or> d = ''icloud.com'' \<or> d = ''mail.com'' \<or> d = ''gmx.com''
     \<or> d = ''protonmail.com'' \<or> d = ''zoho.com''"
    by (simp add: COMMON_EMAIL_DOMAINS_def)
  then show ?thesis
    by (elim disjE)
       (simp_all only: close_gmail close_yahoo close_outlook close_hotmail close_aol
          close_icloud close_mail close_gmx close_protonmail close_zoho)
qed

text \<open>The detector does suggest a correction for a misspelt provider.\<close>

lemma detect_typo_gmial:
  "detect_typo lower ''user@gmial.com'' = Some ''Did you mean '@gmail.com'?''"
  by code_simp

text \<open>
  C10. For every email that splits at \<^verbatim>\<open>@\<close> into a local part and a domain whose
  lowercased form is one of the ten entries of \<^verbatim>\<open>COMMON_EMAIL_DOMAINS\<close>,
  \<^verbatim>\<open>detect_typo\<close> returns None, whatever the lowercasing does to other strings.
\<close>

theorem detect_typo_common_domain:
  assumes "split_str CHR ''@'' email = [local_part, domain]"
    and "str_lower domain \<in> set COMMON_EMAIL_DOMAINS"
  shows "detect_typo str_lower email = None"
  using assms close_common[OF assms(2)] by (simp add: detect_typo_def)

theorem detect_typo_common_domain_witness:
  "detect_typo lower ''Jane.Doe@GMail.COM'' = None
   \<and> detect_typo lower_with_kelvin
        (''user@outloo'' @ [CHR 0xE2, CHR 0x84, CHR 0xAA] @ ''.com'') = None"
proof -
  have a: "split_str CHR ''@'' ''Jane.Doe@GMail.COM'' = [''Jane.Doe'', ''GMail.COM'']"
    by code_simp
  have b: "lower ''GMail.COM'' \<in> set COMMON_EMAIL_DOMAINS"
    by code_simp
  have c: "split_str CHR ''@'' (''user@outloo'' @ [CHR 0xE2, CHR 0x84, CHR 0xAA] @ ''.com'')
             = [''user'', ''outloo'' @ [CHR 0xE2, CHR 0x84, CHR 0xAA] @ ''.com'']"
    by code_simp
  have d: "lower_with_kelvin (''outloo'' @ [CHR 0xE2, CHR 0x84, CHR 0xAA] @ ''.com'')
             \<in> set COMMON_EMAIL_DOMAINS"
    by code_simp
  from detect_typo_common_domain[where str_lower = lower, OF a b]
    detect_typo_common_domain[where str_lower = lower_with_kelvin, OF c d]
  show ?thesis by simp
qed

subsection \<open>Domain reputation\<close>

lemma check_domain_age_range:
  "check_domain_age env domain = Some age \<Longrightarrow> 0 \<le> age \<and> age \<le> 100"
  by (auto simp: check_domain_age_def Let_def split: sum.splits option.splits)

lemma check_blacklists_range:
  "0 \<le> check_blacklists env domain \<and> check_blacklists env domain \<le> 100"
proof -
  have "length (filter (gethostbyname_ex env) BLACKLIST_SERVERS) \<le> length BLACKLIST_SERVERS"
    by (rule length_filter_le)
  moreover have "length BLACKLIST_SERVERS = 5"
    by (simp add: BLACKLIST_SERVERS_def)
  ultimately show ?thesis
    by (simp add: check_blacklists_def Let_def)
qed

lemma check_ssl_range: "0 \<le> check_ssl env domain \<and> check_ssl env domain \<le> 100"
  by (simp add: check_ssl_def split: option.splits)

lemma check_web_presence_range:
  "0 \<le> check_web_presence env domain \<and> check_web_presence env domain \<le> 50"
  by (simp add: check_web_presence_def split: sum.splits)

lemma check_mail_config_range:
  "0 \<le> check_mail_config env domain \<and> check_mail_config env domain \<le> 100"
  by (simp add: check_mail_config_def split: sum.splits)

lemma check_reputation_try_cases:
  "check_reputation_try env domain = Inr r \<Longrightarrow>
     \<exists>age. check_domain_age env domain = Some age
       \<and> score r = 0.25 * age + 0.30 * check_blacklists env domain
             + 0.15 * check_ssl env domain + 0.15 * check_web_presence env domain
             + 0.15 * check_mail_config env domain
       \<and> risk_level r = (if score r \<ge> 70 then ''high''
                          else if score r \<ge> 40 then ''medium'' else ''low'')"
  by (auto simp: check_reputation_try_def Let_def WEIGHTS_def high_risk_threshold_def
        medium_risk_threshold_def split: option.splits)

text \<open>
  C6. Whenever the body of \<^verbatim>\<open>check_reputation\<close> raises, for any domain and any
  behaviour of the network, the call returns score 100 with risk level \<^verbatim>\<open>high\<close> and the
  exception's text as \<^verbatim>\<open>error\<close>; the exception does not reach the caller.
\<close>

theorem check_reputation_exception_is_worst_score:
  assumes "check_reputation_try env domain = Inl e"
  shows "check_reputation env domain
           = \<lparr>score = 100, risk_level = ''high'', error = str_exn e\<rparr>"
  using assms by (simp add: check_reputation_def)

theorem check_reputation_exception_is_worst_score_witness:
  "check_reputation
     \<lparr>whois_lookup = (\<lambda>d. Inr None), gethostbyname_ex = (\<lambda>s. False),
      ssl_handshake = (\<lambda>d. None), web_get = (\<lambda>d. Inr 200),
      getaddrinfo = (\<lambda>d. Inr [''192.0.2.1'']), spf_resolves = (\<lambda>d. True),
      dmarc_resolves = (\<lambda>d. True)\<rparr> ''example.com''
   = \<lparr>score = 100, risk_level = ''high'', error = str_exn NoneType_operand_error\<rparr>"
proof -
  let ?env = "\<lparr>whois_lookup = (\<lambda>d. Inr None), gethostbyname_ex = (\<lambda>s. False),
      ssl_handshake = (\<lambda>d. None), web_get = (\<lambda>d. Inr 200),
      getaddrinfo = (\<lambda>d. Inr [''192.0.2.1'']), spf_resolves = (\<lambda>d. True),
      dmarc_resolves = (\<lambda>d. True)\<rparr>"
  have raised: "check_reputation_try ?env ''example.com'' = Inl NoneType_operand_error"
    by (simp add: check_reputation_try_def check_domain_age_def Let_def)
  from check_reputation_exception_is_worst_score[OF raised] show ?thesis by simp
qed

text \<open>
  C7. When the body of \<^verbatim>\<open>check_reputation\<close> raises nothing, the returned score is
  \<open>0.25 * age + 0.30 * blacklist + 0.15 * ssl + 0.15 * web + 0.15 * mail\<close> of the five
  sub-scores, it lies in \<open>[0, 100]\<close>, and the risk level is \<^verbatim>\<open>high\<close> exactly from 70 up,
  \<^verbatim>\<open>medium\<close> exactly from 40 up to 70, and \<^verbatim>\<open>low\<close> exactly below 40.
\<close>

theorem check_reputation_weighted_sum:
  assumes "check_reputation_try env domain = Inr r"
  shows "(\<exists>age. check_domain_age env domain = Some age
            \<and> score (check_reputation env domain)
                = 0.25 * age + 0.30 * check_blacklists env domain
                  + 0.15 * check_ssl env domain + 0.15 * check_web_presence env domain
                  + 0.15 * check_mail_config env domain)
         \<and> 0 \<le> score (check_reputation env domain)
         \<and> score (check_reputation env domain) \<le> 100
         \<and> (risk_level (check_reputation env domain) = ''high''
              \<longleftrightarrow> score (check_reputation env domain) \<ge> 70)
         \<and> (risk_level (check_reputation env domain) = ''medium''
              \<longleftrightarrow> 40 \<le> score (check_reputation env domain)
                  \<and> score (check_reputation env domain) < 70)
         \<and> (risk_level (check_reputation env domain) = ''low''
              \<longleftrightarrow> score (check_reputation env domain) < 40)"
proof -
  have eq: "check_reputation env domain = r"
    using assms by (simp add: check_reputation_def)
  from check_reputation_try_cases[OF assms] obtain age where
    age: "check_domain_age env domain = Some age"
    and sc: "score r = 0.25 * age + 0.30 * check_blacklists env domain
             + 0.15 * check_ssl env domain + 0.15 * check_web_presence env domain
             + 0.15 * check_mail_config env domain"
    and rk: "risk_level r = (if score r \<ge> 70 then ''high''
                              else if score r \<ge> 40 then ''medium'' else ''low'')"
    by blast
  have sum: "\<exists>age. check_domain_age env domain = Some age
           \<and> score (check_reputation env domain)
               = 0.25 * age + 0.30 * check_blacklists env domain
                 + 0.15 * check_ssl env domain + 0.15 * check_web_presence env domain
                 + 0.15 * check_mail_config env domain"
    using age sc eq by simp
  note ranges = check_domain_age_range[OF age] check_blacklists_range[of env domain]
    check_ssl_range[of env domain] check_web_presence_range[of env domain]
    check_mail_config_range[of env domain]
  have lo: "0 \<le> score (check_reputation env domain)"
    unfolding eq sc using ranges by simp
  have hi: "score (check_reputation env domain) \<le> 100"
    unfolding eq sc using ranges by simp
  have high: "risk_level (check_reputation env domain) = ''high''
           \<longleftrightarrow> score (check_reputation env domain) \<ge> 70"
    unfolding eq using rk by simp
  have medium: "risk_level (check_reputation env domain) = ''medium''
           \<longleftrightarrow> 40 \<le> score (check_reputation env domain)
               \<and> score (check_reputation env domain) < 70"
    unfolding eq using rk by simp
  have low: "risk_level (check_reputation env domain) = ''low''
           \<longleftrightarrow> score (check_reputation env domain) < 40"
    unfolding eq using rk by simp
  from sum lo hi high medium low show ?thesis by blast
qed

theorem check_reputation_weighted_sum_witness:
  "score (check_reputation
     \<lparr>whois_lookup = (\<lambda>d. Inr (Some 365)), gethostbyname_ex = (\<lambda>s. s = ''bl.spamcop.net''),
      ssl_handshake = (\<lambda>d. None), web_get = (\<lambda>d. Inr 404),
      getaddrinfo = (\<lambda>d. Inr [''192.0.2.1'']), spf_resolves = (\<lambda>d. True),
      dmarc_resolves = (\<lambda>d. False)\<rparr> ''example.com'') = 38
   \<and> risk_level (check_reputation
     \<lparr>whois_lookup = (\<lambda>d. Inr (Some 365)), gethostbyname_ex = (\<lambda>s. s = ''bl.spamcop.net''),
      ssl_handshake = (\<lambda>d. None), web_get = (\<lambda>d. Inr 404),
      getaddrinfo = (\<lambda>d. Inr [''192.0.2.1'']), spf_resolves = (\<lambda>d. True),
      dmarc_resolves = (\<lambda>d. False)\<rparr> ''example.com'') = ''low''"
proof -
  let ?env = "\<lparr>whois_lookup = (\<lambda>d. Inr (Some 365)),
      gethostbyname_ex = (\<lambda>s. s = ''bl.spamcop.net''),
      ssl_handshake = (\<lambda>d. None), web_get = (\<lambda>d. Inr 404),
      getaddrinfo = (\<lambda>d. Inr [''192.0.2.1'']), spf_resolves = (\<lambda>d. True),
      dmarc_resolves = (\<lambda>d. False)\<rparr>"
  have age: "check_domain_age ?env ''example.com'' = Some 80"
    by (simp add: check_domain_age_def Let_def)
  have bl: "check_blacklists ?env ''example.com'' = 20"
    by (simp add: check_blacklists_def BLACKLIST_SERVERS_def Let_def)
  have ssl: "check_ssl ?env ''example.com'' = 0"
    by (simp add: check_ssl_def)
  have web: "check_web_presence ?env ''example.com'' = 50"
    by (simp add: check_web_presence_def)
  have mail: "check_mail_config ?env ''example.com'' = 30"
    by (simp add: check_mail_config_def)
  have ok: "check_reputation_try ?env ''example.com''
              = Inr \<lparr>score = 38, risk_level = ''low'', error = []\<rparr>"
    unfolding check_reputation_try_def Let_def age bl ssl web mail
    by (simp add: WEIGHTS_def high_risk_threshold_def medium_risk_threshold_def)
  from check_reputation_weighted_sum[OF ok] age bl ssl web mail show ?thesis
    by simp
qed

subsection \<open>SMTP verifier\<close>













subsection \<open>Orchestrator\<close>

lemma fan_out_calls:
  "snd (fan_out env e domain dns_results res)
     = (let cs = post_dns_checks e domain
        in take (Suc (length (takeWhile (\<lambda>c. \<not> raises env c) cs))) cs)"
  by (simp add: fan_out_def post_dns_checks_def Let_def split: sum.splits)

lemma calculate_risk_score_results_dict:
  "calculate_risk_score (results_dict r) = Inl (Exn KeyError ''syntax_valid'')"
  by (simp add: calculate_risk_score_def results_dict_def bindE_def add_if_not_def)

lemma fan_out_score:
  "fst (fan_out env e domain dns_results res) = Inr r \<Longrightarrow> result_score r = result_score res"
  by (auto simp: fan_out_def Let_def handler_def calculate_risk_score_results_dict
      split: sum.splits option.splits if_splits)

lemma fan_out_score_pair:
  "fan_out env e domain dns_results res = (Inr r, cs) \<Longrightarrow> result_score r = result_score res"
  using fan_out_score[of env e domain dns_results res r] by simp

lemma validate_email_score:
  "fst (validate_email env e) = Inr r \<Longrightarrow> result_score r = 0"
  by (auto simp: validate_email_def Let_def handler_def initial_results_def
      split: sum.splits if_splits prod.splits dest!: fan_out_score_pair)

lemma validate_email_invalid_syntax:
  "\<not> regex_match e \<Longrightarrow>
     validate_email env e
       = (handler env (initial_results e) ''Syntax validation error: ''
            (Exn ValidationError ''Invalid email syntax.''), [])"
  by (simp add: validate_email_def validate_syntax_def)

lemma fan_out_error_text:
  "fan_out env e domain dns_results res = (Inr r, cs) \<Longrightarrow>
     result_error r = result_error res \<or> (\<exists>t. result_error r = Some (CHR ''V'' # t))"
  by (auto simp: fan_out_def Let_def handler_def calculate_risk_score_results_dict
      split: sum.splits option.splits if_splits)

text \<open>
  No call of \<^verbatim>\<open>validate_email\<close> returns the error \<^verbatim>\<open>Invalid email syntax\<close>, and none
  returns a score other than the initial 0.
\<close>

lemma validate_email_error_text:
  assumes a: "fst (validate_email env e) = Inr r"
  shows "result_error r \<noteq> Some ''Invalid email syntax''"
proof (cases "regex_match e")
  case False
  from validate_email_invalid_syntax[OF False, of env] a show ?thesis
    by (auto simp: handler_def split: if_splits)
next
  case True
  then have syn: "validate_syntax e = Inr True" by (simp add: validate_syntax_def)
  show ?thesis
  proof (cases "validate_domain env (extract_domain e)")
    case (Inl x)
    with syn a show ?thesis by (simp add: validate_email_def Let_def)
  next
    case (Inr d)
    show ?thesis
    proof (cases "\<not> dict_get d ''has_mx'' \<and> \<not> dict_get d ''has_a''")
      case True
      with syn Inr a show ?thesis by (auto simp: validate_email_def Let_def)
    next
      case False
      let ?res = "(initial_results e)\<lparr>checks := (checks (initial_results e))\<lparr>syntax_is_valid := True\<rparr>\<rparr>"
      let ?res' = "?res\<lparr>checks := (checks ?res)\<lparr>dns_check := d\<rparr>\<rparr>"
      obtain out cs where f: "fan_out env e (extract_domain e) d ?res' = (out, cs)"
        by (cases "fan_out env e (extract_domain e) d ?res'")
      with syn Inr False a have "out = Inr r"
        by (auto simp: validate_email_def Let_def split: if_splits)
      with f fan_out_error_text[of env e "extract_domain e" d ?res' r cs]
      show ?thesis by (auto simp: initial_results_def)
    qed
  qed
qed


lemma fan_out_email:
  "fan_out env e domain dns_results res = (Inr r, cs) \<Longrightarrow> result_email r = result_email res"
  by (auto simp: fan_out_def Let_def handler_def calculate_risk_score_results_dict
      split: sum.splits option.splits if_splits)

lemma validate_email_email:
  "fst (validate_email env e) = Inr r \<Longrightarrow> result_email r = e"
  by (auto simp: validate_email_def Let_def handler_def initial_results_def
      split: sum.splits if_splits prod.splits dest!: fan_out_email)

text \<open>
  The nested \<^verbatim>\<open>process_batch\<close> keeps length and order; it is the call to it that is
  missing.
\<close>

lemma process_batch_keeps_order:
  "length (process_batch env batch) = length batch
   \<and> map item_email (process_batch env batch) = batch"
proof -
  have "item_email (case fst (validate_email env e) of
                      Inl x \<Rightarrow> Error_result e (str_exn x)
                    | Inr result \<Rightarrow> Result result) = e" for e
    by (auto split: sum.splits dest: validate_email_email)
  then show ?thesis
    by (simp add: process_batch_def comp_def)
qed

lemma validate_emails_batch_nonempty:
  "emails \<noteq> [] \<Longrightarrow> validate_emails_batch env emails batch_size = Results_list []"
  by (simp add: validate_emails_batch_def)

text \<open>
  C1. The spec asks for a results list as long as the input, with the emails in input
  order. The code does not give it: for a non-empty list \<^verbatim>\<open>validate_emails_batch\<close>
  returns the empty list, whatever the emails are. Here for two emails.
\<close>

theorem validate_emails_batch_returns_empty_list:
  "returned_results
     (validate_emails_batch env [''first@example.com'', ''second@example.com''] 50) = []"
  by (simp add: validate_emails_batch_def)

lemma syntax_user_example: "validate_syntax ''user@example.com'' = Inr True"
  by code_simp

lemma domain_user_example: "extract_domain ''user@example.com'' = ''example.com''"
  by code_simp

lemma typo_user_example: "detect_typo lower ''user@example.com'' = None"
  by code_simp

lemma no_match_not_an_email: "\<not> regex_match ''not-an-email''"
  by code_simp

text \<open>
  C3. The spec asks for \<open>is_valid = False\<close>, the error \<^verbatim>\<open>Invalid email syntax\<close> and no
  network call. The error text is not what the code gives. \<^verbatim>\<open>validate_syntax\<close> raises for
  an invalid address, so for \<^verbatim>\<open>not-an-email\<close> the handler of the syntax step runs: with
  no \<^verbatim>\<open>logger\<close> bound the call ends in a NameError, and with one bound the error is
  \<^verbatim>\<open>Syntax validation error: Invalid email syntax.\<close> In both cases no collaborator is
  called.
\<close>

theorem validate_email_not_an_email:
  "validate_email (healthy_env False) ''not-an-email'' = (Inl logger_name_error, [])
   \<and> validate_email (healthy_env True) ''not-an-email''
     = (Inr ((initial_results ''not-an-email'')
               \<lparr>result_error := Some ''Syntax validation error: Invalid email syntax.''\<rparr>), [])"
  using validate_email_invalid_syntax[OF no_match_not_an_email]
  by (simp add: handler_def healthy_env_def)

text \<open>
  C2. The spec asks for \<open>is_valid = True\<close>, a score in the upper half and a low risk
  level. The code does not give them. For \<^verbatim>\<open>user@example.com\<close> with every collaborator
  healthy, all checks run and \<^verbatim>\<open>is_valid\<close> is set, then \<^verbatim>\<open>calculate_risk_score\<close> raises
  \<^verbatim>\<open>KeyError('syntax_valid')\<close>: with no \<^verbatim>\<open>logger\<close> bound the call ends in a NameError,
  and with one bound the result has \<open>is_valid = True\<close>, score 0 and the error text of the
  KeyError.
\<close>

theorem validate_email_healthy_scenario:
  "validate_email (healthy_env False) ''user@example.com''
     = (Inl logger_name_error,
        Validate_domain ''example.com'' # post_dns_checks ''user@example.com'' ''example.com'')
   \<and> map_sum id (\<lambda>r. (is_valid r, result_score r, result_error r))
        (fst (validate_email (healthy_env True) ''user@example.com''))
     = Inr (True, 0, Some (''Validation error: '' @ str_exn (Exn KeyError ''syntax_valid'')))"
  by (simp add: validate_email_def fan_out_def Let_def syntax_user_example
      domain_user_example typo_user_example healthy_env_def dict_get_def handler_def
      calculate_risk_score_results_dict initial_results_def post_dns_checks_def)

text \<open>
  C5 (amended). For every email that passes the syntax and DNS steps, the post-DNS
  checks run one after the other in the order SMTP, disposable, role account, typo,
  reputation, spam trap, catch-all. The calls made are the checks up to and including
  the first one that raises: the checks before it have run, the checks after it are
  skipped. When no check raises, all seven are made.
\<close>

theorem validate_email_checks_until_first_exception:
  assumes "validate_syntax e = Inr True"
    and "validate_domain env (extract_domain e) = Inr dns_results"
    and "dict_get dns_results ''has_mx'' \<or> dict_get dns_results ''has_a''"
  shows "snd (validate_email env e)
           = Validate_domain (extract_domain e)
             # take (Suc (length (takeWhile (\<lambda>c. \<not> raises env c)
                                    (post_dns_checks e (extract_domain e)))))
                 (post_dns_checks e (extract_domain e))
         \<and> (\<forall>pre c post.
               post_dns_checks e (extract_domain e) = pre @ c # post
               \<and> (\<forall>x \<in> set pre. \<not> raises env x) \<and> raises env c
               \<longrightarrow> snd (validate_email env e)
                     = Validate_domain (extract_domain e) # pre @ [c])
         \<and> ((\<forall>c \<in> set (post_dns_checks e (extract_domain e)). \<not> raises env c) \<longrightarrow>
              snd (validate_email env e)
                = Validate_domain (extract_domain e) # post_dns_checks e (extract_domain e))"
proof -
  let ?cs = "post_dns_checks e (extract_domain e)"
  let ?ok = "\<lambda>c. \<not> raises env c"
  let ?res = "(initial_results e)\<lparr>checks := (checks (initial_results e))\<lparr>syntax_is_valid := True\<rparr>\<rparr>"
  let ?res' = "?res\<lparr>checks := (checks ?res)\<lparr>dns_check := dns_results\<rparr>\<rparr>"
  have "snd (validate_email env e)
          = Validate_domain (extract_domain e)
            # snd (fan_out env e (extract_domain e) dns_results ?res')"
    using assms by (auto simp: validate_email_def Let_def split: prod.splits)
  then have calls: "snd (validate_email env e)
          = Validate_domain (extract_domain e) # take (Suc (length (takeWhile ?ok ?cs))) ?cs"
    by (simp add: fan_out_calls Let_def)
  have stop: "take (Suc (length (takeWhile ?ok ?cs))) ?cs = pre @ [c]"
    if dec: "?cs = pre @ c # post" and before: "\<forall>x \<in> set pre. \<not> raises env x"
      and here: "raises env c"
    for pre c post
  proof -
    have "takeWhile ?ok (pre @ c # post) = pre @ takeWhile ?ok (c # post)"
      by (rule takeWhile_append2) (use before in simp)
    also have "\<dots> = pre" using here by simp
    finally have "takeWhile ?ok ?cs = pre" by (simp add: dec)
    then have "take (Suc (length (takeWhile ?ok ?cs))) ?cs = take (Suc (length pre)) (pre @ c # post)"
      by (simp add: dec)
    also have "\<dots> = pre @ [c]" by simp
    finally show ?thesis .
  qed
  have whole: "take (Suc (length (takeWhile ?ok ?cs))) ?cs = ?cs"
    if "\<forall>c \<in> set ?cs. \<not> raises env c"
  proof -
    from that have all: "takeWhile ?ok ?cs = ?cs"
      by (intro takeWhile_eq_all_conv[THEN iffD2]) simp
    show ?thesis by (subst all) simp
  qed
  from calls stop whole show ?thesis by (simp del: takeWhile.simps)
qed

text \<open>
  A failing check does stop the others: when the SMTP check raises, none of the later
  checks is called, and with no \<^verbatim>\<open>logger\<close> bound an exception leaves \<^verbatim>\<open>validate_email\<close>.
\<close>

theorem validate_email_smtp_exception_skips_checks:
  "validate_email (smtp_raising_env False) ''user@example.com''
     = (Inl logger_name_error, [Validate_domain ''example.com'', Verify_smtp ''example.com''])
   \<and> snd (validate_email (smtp_raising_env True) ''user@example.com'')
     = [Validate_domain ''example.com'', Verify_smtp ''example.com'']"
  by (simp add: validate_email_def fan_out_def Let_def syntax_user_example
      domain_user_example smtp_raising_env_def healthy_env_def dict_get_def handler_def)

theorem validate_email_checks_until_first_exception_witness:
  "snd (validate_email (smtp_raising_env False) ''user@example.com'')
     = [Validate_domain ''example.com'', Verify_smtp ''example.com'']
   \<and> snd (validate_email (healthy_env False) ''user@example.com'')
     = [Validate_domain ''example.com'', Verify_smtp ''example.com'',
        Is_disposable_email ''user@example.com'', Is_role_account ''user@example.com'',
        Detect_typo ''user@example.com'', Get_domain_reputation ''example.com'',
        Spam_trap_check ''user@example.com'', Catch_all_check ''example.com'']
   \<and> snd (validate_email (catch_all_raising_env False) ''user@example.com'')
     = [Validate_domain ''example.com'', Verify_smtp ''example.com'',
        Is_disposable_email ''user@example.com'', Is_role_account ''user@example.com'',
        Detect_typo ''user@example.com'', Get_domain_reputation ''example.com'',
        Spam_trap_check ''user@example.com'', Catch_all_check ''example.com'']"
proof -
  let ?dns = "[''has_mx'' \<mapsto> True, ''has_a'' \<mapsto> True, ''has_ptr'' \<mapsto> True]"
  let ?e = "''user@example.com''"
  let ?d = "''example.com''"
  have mx: "dict_get ?dns ''has_mx'' \<or> dict_get ?dns ''has_a''"
    by (simp add: dict_get_def)
  have d1: "validate_domain (smtp_raising_env False) (extract_domain ?e) = Inr ?dns"
    by (simp add: smtp_raising_env_def healthy_env_def)
  have d2: "validate_domain (healthy_env False) (extract_domain ?e) = Inr ?dns"
    by (simp add: healthy_env_def)
  have d3: "validate_domain (catch_all_raising_env False) (extract_domain ?e) = Inr ?dns"
    by (simp add: catch_all_raising_env_def healthy_env_def)
  have s1: "post_dns_checks ?e (extract_domain ?e)
              = [] @ Verify_smtp ?d
                # [Is_disposable_email ?e, Is_role_account ?e, Detect_typo ?e,
                   Get_domain_reputation ?d, Spam_trap_check ?e, Catch_all_check ?d]"
    by (simp add: post_dns_checks_def domain_user_example)
  have r1: "(\<forall>x \<in> set []. \<not> raises (smtp_raising_env False) x)
            \<and> raises (smtp_raising_env False) (Verify_smtp ?d)"
    by (simp add: smtp_raising_env_def healthy_env_def)
  have a: "snd (validate_email (smtp_raising_env False) ?e)
             = [Validate_domain ?d, Verify_smtp ?d]"
    using validate_email_checks_until_first_exception[OF syntax_user_example d1 mx,
        THEN conjunct2, THEN conjunct1, THEN spec, THEN spec, THEN spec, THEN mp,
        OF conjI[OF s1 r1]]
    by (simp add: domain_user_example)
  have r2: "\<forall>c \<in> set (post_dns_checks ?e (extract_domain ?e)).
              \<not> raises (healthy_env False) c"
    by (simp add: post_dns_checks_def healthy_env_def)
  have b: "snd (validate_email (healthy_env False) ?e)
             = Validate_domain ?d # post_dns_checks ?e ?d"
    using validate_email_checks_until_first_exception[OF syntax_user_example d2 mx,
        THEN conjunct2, THEN conjunct2, THEN mp, OF r2]
    by (simp add: domain_user_example)
  have s3: "post_dns_checks ?e (extract_domain ?e)
              = [Verify_smtp ?d, Is_disposable_email ?e, Is_role_account ?e, Detect_typo ?e,
                 Get_domain_reputation ?d, Spam_trap_check ?e]
                @ Catch_all_check ?d # []"
    by (simp add: post_dns_checks_def domain_user_example)
  have r3: "(\<forall>x \<in> set [Verify_smtp ?d, Is_disposable_email ?e, Is_role_account ?e,
                         Detect_typo ?e, Get_domain_reputation ?d, Spam_trap_check ?e].
               \<not> raises (catch_all_raising_env False) x)
            \<and> raises (catch_all_raising_env False) (Catch_all_check ?d)"
    by (simp add: catch_all_raising_env_def healthy_env_def)
  have c: "snd (validate_email (catch_all_raising_env False) ?e)
             = Validate_domain ?d # post_dns_checks ?e ?d"
    using validate_email_checks_until_first_exception[OF syntax_user_example d3 mx,
        THEN conjunct2, THEN conjunct1, THEN spec, THEN spec, THEN spec, THEN mp,
        OF conjI[OF s3 r3]]
    by (simp add: domain_user_example post_dns_checks_def)
  from a b c show ?thesis by (simp add: post_dns_checks_def)
qed

subsection \<open>The imported score and the exceptions of the reputation check\<close>

text \<open>
  On a result whose checks are all healthy, with reputation 80, the
  \<^verbatim>\<open>calculate_risk_score\<close> of \<^verbatim>\<open>risk_score.py\<close> gives 98: the score the orchestrator
  would return if its own definition did not rebind the name.
\<close>

lemma imported_score_of_healthy_checks:
  assumes "syntax_is_valid (checks r)"
    and "dict_get (dns_check (checks r)) ''has_mx''"
    and "dict_get (dns_check (checks r)) ''has_a''"
    and "dict_get (dns_check (checks r)) ''has_ptr''"
    and "smtp_verified (checks r) \<noteq> None"
    and "\<not> is_disposable (checks r)" and "\<not> is_trap (checks r)"
    and "reputation_score (checks r) = 80"
  shows "risk_score_calculate_risk_score r = 98"
  unfolding risk_score_calculate_risk_score_def Let_def int_of_quotient_def
  using assms by simp

text \<open>
  The body of \<^verbatim>\<open>check_reputation\<close> raises exactly when the WHOIS record has no creation
  date.
\<close>

lemma check_reputation_try_raises_iff:
  "check_reputation_try env domain = Inl e
     \<longleftrightarrow> whois_lookup env domain = Inr None \<and> e = NoneType_operand_error"
  by (auto simp: check_reputation_try_def check_domain_age_def Let_def
      split: sum.splits option.splits)

end
